theory Spec2Isabelle
  imports Complex_Main
begin

section \<open>JavaScript values\<close>

text \<open>
  A thrown \<open>Error\<close> (and a rejected promise) is a value: every function that can
  throw returns \<open>error + 'a\<close>, \<open>Inl\<close> the error. Everything the code under
  study throws or rejects with is an \<open>Error\<close> object carrying a message.
\<close>

datatype error = Error (message: string)

text \<open>
  An optional property is an \<open>option\<close> (\<open>None\<close> is \<open>undefined\<close>).
  A number is falsy when it is absent or zero; \<open>a || b\<close> is \<open>a\<close> when
  \<open>a\<close> is truthy and \<open>b\<close> otherwise.
\<close>

definition truthy :: "'a::zero option \<Rightarrow> bool" where
  "truthy x = (case x of None \<Rightarrow> False | Some v \<Rightarrow> v \<noteq> 0)"

definition js_or :: "'a::zero option \<Rightarrow> 'a option \<Rightarrow> 'a option" where
  "js_or a b = (if truthy a then a else b)"

text \<open>A destructuring default \<open>{ x = d } = config\<close> applies when \<open>x\<close> is undefined.\<close>

definition default_to :: "'a \<Rightarrow> 'a option \<Rightarrow> 'a" where
  "default_to d x = (case x of None \<Rightarrow> d | Some v \<Rightarrow> v)"

text \<open>\<open>name || fallback\<close> on strings: the empty string is falsy.\<close>

definition str_or :: "string option \<Rightarrow> string \<Rightarrow> string" where
  "str_or a b = (case a of None \<Rightarrow> b | Some s \<Rightarrow> if s = [] then b else s)"

text \<open>Decimal text of a non-negative integer, as a template literal renders it.\<close>

definition digit_char :: "nat \<Rightarrow> char" where
  "digit_char n = ''0123456789'' ! (n mod 10)"

function show_nat :: "nat \<Rightarrow> string" where
  "show_nat n = (if n < 10 then [digit_char n] else show_nat (n div 10) @ [digit_char n])"
  by pat_completeness auto
termination
  by (relation "measure (\<lambda>n. n)") auto

declare show_nat.simps [simp del]

text \<open>\<open>Array.prototype.join\<close>\<close>

fun join :: "string \<Rightarrow> string list \<Rightarrow> string" where
  "join sep [] = []"
| "join sep [x] = x"
| "join sep (x # y # ys) = x @ sep @ join sep (y # ys)"

text \<open>
  A \<open>map\<close> whose callback can throw stops at the first element that throws.
\<close>

fun map_throwing :: "('a \<Rightarrow> error + 'b) \<Rightarrow> 'a list \<Rightarrow> error + 'b list" where
  "map_throwing f [] = Inr []"
| "map_throwing f (x # xs) =
     (case f x of
        Inl e \<Rightarrow> Inl e
      | Inr y \<Rightarrow> (case map_throwing f xs of Inl e \<Rightarrow> Inl e | Inr ys \<Rightarrow> Inr (y # ys)))"

section \<open>CurveGenerator (services/aiService.js, class AudioService)\<close>

text \<open>
  JavaScript numbers are modelled as exact reals: rounding of IEEE doubles, NaN and the
  infinities are outside the model (a division by zero that the code can reach is written
  out where it matters). \<open>Math.random()\<close> is an injected source: the stream
  \<open>rnd\<close> of draws and the index \<open>k\<close> of the next draw; the \<open>i\<close>-th
  draw of one curve is \<open>rnd (k + i)\<close>.
\<close>

record curve_point =
  time :: real

record volume_point = curve_point +
  volume :: real

record pan_point = curve_point +
  pan :: real

text \<open>\<open>const points = Math.max(10, Math.floor(duration / 60))\<close>\<close>

definition curve_points :: "real \<Rightarrow> nat" where
  "curve_points duration = nat (max 10 \<lfloor>duration / 60\<rfloor>)"

text \<open>
  \<open>for (let i = 0; i <= points; i++) { ...; curve.push({ time, volume }) }\<close>:
  the loop index runs over \<open>0, ..., points\<close>, both ends included.
\<close>

definition generateVolumeCurve ::
  "real \<Rightarrow> real \<Rightarrow> real \<Rightarrow> (nat \<Rightarrow> real) \<Rightarrow> nat \<Rightarrow> volume_point list" where
  "generateVolumeCurve duration baseVolume volatility rnd k =
     (let points = curve_points duration in
      map (\<lambda>i.
        let t = (real i / real points) * duration;
            randomOffset = (rnd (k + i) - 0.5) * volatility;
            vol = max 0.1 (min 1.0 (baseVolume + randomOffset))
        in \<lparr>time = t, volume = vol\<rparr>) [0..<Suc points])"

definition generatePanCurve ::
  "real \<Rightarrow> real \<Rightarrow> (nat \<Rightarrow> real) \<Rightarrow> nat \<Rightarrow> pan_point list" where
  "generatePanCurve duration spatialDrift rnd k =
     (let points = curve_points duration in
      map (\<lambda>i.
        let t = (real i / real points) * duration;
            p = (rnd (k + i) - 0.5) * 2 * spatialDrift
        in \<lparr>time = t, pan = p\<rparr>) [0..<Suc points])"

section \<open>FilterGraphBuilder (services/aiService.js, class AudioService)\<close>

text \<open>
  The filters are text handed to the encoder. The text of a JavaScript number inside a
  template literal is the parameter \<open>num\<close>.
\<close>

definition apostrophe :: string where
  "apostrophe = [CHR 0x27]"

text \<open>\<open>`between(t,${point.time},${point.time + 1})*${point.volume}`\<close>\<close>

definition volume_term :: "(real \<Rightarrow> string) \<Rightarrow> volume_point \<Rightarrow> string" where
  "volume_term num point =
     ''between(t,'' @ num (time point) @ '','' @ num (time point + 1) @ '')*'' @ num (volume point)"

definition volume_terms :: "(real \<Rightarrow> string) \<Rightarrow> volume_point list \<Rightarrow> string list" where
  "volume_terms num curve = map (volume_term num) curve"

definition buildVolumeFilter :: "(real \<Rightarrow> string) \<Rightarrow> volume_point list \<Rightarrow> string" where
  "buildVolumeFilter num curve =
     ''volume='' @ apostrophe @ join ''+'' (volume_terms num curve) @ apostrophe @ '':eval=frame''"

text \<open>
  What the emitted expression denotes. In the encoder's expression language
  \<open>between(x, min, max)\<close> is 1 when \<open>min \<le> x \<le> max\<close> and 0 otherwise (both
  ends included), so the term of a point is active on the closed window
  \<open>[time, time + 1]\<close>, and the expression is the sum of the terms.
\<close>

definition between :: "real \<Rightarrow> real \<Rightarrow> real \<Rightarrow> real" where
  "between x lo hi = (if lo \<le> x \<and> x \<le> hi then 1 else 0)"

definition window :: "volume_point \<Rightarrow> real set" where
  "window point = {t. between t (time point) (time point + 1) = 1}"

definition volume_expr :: "volume_point list \<Rightarrow> real \<Rightarrow> real" where
  "volume_expr curve t = (\<Sum>point\<leftarrow>curve. between t (time point) (time point + 1) * volume point)"

text \<open>
  The gain expression in the words of the specification, for comparison: one half-open
  window per consecutive pair of points, \<open>[time of the first, time of the second)\<close>,
  contributing the volume of the pair's first point while it is active.
\<close>

definition spec_windows :: "volume_point list \<Rightarrow> (real \<times> real \<times> real) list" where
  "spec_windows curve = map (\<lambda>(p, q). (time p, time q, volume p)) (zip curve (tl curve))"

definition spec_volume_expr :: "volume_point list \<Rightarrow> real \<Rightarrow> real" where
  "spec_volume_expr curve t =
     (\<Sum>(lo, hi, v)\<leftarrow>spec_windows curve. (if lo \<le> t \<and> t < hi then 1 else 0) * v)"

text \<open>\<open>buildPanFilter(panValue)\<close>\<close>

definition leftGain :: "real \<Rightarrow> real" where
  "leftGain panValue = 1 - max 0 panValue"

definition rightGain :: "real \<Rightarrow> real" where
  "rightGain panValue = 1 + min 0 panValue"

definition buildPanFilter :: "(real \<Rightarrow> string) \<Rightarrow> real \<Rightarrow> string" where
  "buildPanFilter num panValue =
     ''pan=stereo|c0='' @ num (leftGain panValue) @ ''*c0|c1='' @ num (rightGain panValue) @ ''*c1''"

text \<open>
  \<open>panCurves[index].reduce((sum, p) => sum + p.pan, 0) / panCurves[index].length\<close>
\<close>

definition avgPan :: "pan_point list \<Rightarrow> real" where
  "avgPan curve = foldl (\<lambda>sum p. sum + pan p) 0 curve / real (length curve)"

section \<open>AudioMixEngine (services/aiService.js, \<open>generateAudio\<close>)\<close>

text \<open>An element of \<open>config.stems\<close>: \<open>{ stem_id?, id?, volume? }\<close>.\<close>

record stem_config =
  stem_id :: "nat option"
  cfg_id :: "nat option"
  cfg_volume :: "real option"

text \<open>\<open>config\<close> as the caller passes it, every property optional.\<close>

record audio_config =
  stems :: "stem_config list option"
  duration :: "real option"
  volatility :: "real option"
  density :: "real option"
  spatialDrift :: "real option"
  outputName :: "string option"

text \<open>
  A row of the table \<open>audio_stems\<close> (the columns the function reads), and the row
  extended by \<open>{ ...dbStem, volume: ... }\<close>.
\<close>

record audio_stem =
  row_id :: nat
  file_path :: string
  default_volume :: "real option"

record mix_stem = audio_stem +
  stem_volume :: real

text \<open>
  One run of the encoder, as the event handlers see it: whether \<open>start\<close> fired, the
  \<open>progress\<close> events in order (each with \<open>progress.percent\<close>, possibly absent, and
  the elapsed time text the clock gives at that moment), and then either \<open>end\<close> (with the
  size of the file written and the total time text) or \<open>error\<close> (with
  \<open>err.message\<close> and whether a partial output file was left on disk).
\<close>

datatype encoder_outcome =
    Ended nat real
  | Errored string bool

record encoder_run =
  started :: bool
  progress :: "(real option \<times> string) list"
  outcome :: encoder_outcome

text \<open>
  Everything outside the function. First what both engines use: the files that exist
  (\<open>fs.existsSync\<close>), the clock (\<open>Date.now()\<close>) and the runtime's
  \<open>path.resolve\<close> and \<open>path.join\<close>. Then, for the audio engine: the stem
  catalog and whether the query fails, the random source, the encoder's run, number
  formatting and the output directory.
\<close>

record runtime =
  files :: "string set"
  now :: nat
  path_resolve :: "string \<Rightarrow> string"
  path_join :: "string \<Rightarrow> string \<Rightarrow> string"

record audio_world = runtime +
  catalog :: "audio_stem list"
  db_error :: "string option"
  rnd :: "nat \<Rightarrow> real"
  ffmpeg :: encoder_run
  num :: "real \<Rightarrow> string"
  audioOutputDir :: string

text \<open>
  \<open>getAudioStems(stemIds)\<close>: \<open>SELECT * FROM audio_stems [WHERE id IN (...)]\<close>.
\<close>

definition getAudioStems :: "audio_world \<Rightarrow> nat option list \<Rightarrow> error + audio_stem list" where
  "getAudioStems w stemIds =
     (case db_error w of
        Some m \<Rightarrow> Inl (Error m)
      | None \<Rightarrow>
          Inr (if stemIds \<noteq> [] then filter (\<lambda>row. Some (row_id row) \<in> set stemIds) (catalog w)
               else catalog w))"

text \<open>
  \<open>const stemConfig = stems.find(s => (s.stem_id || s.id) === dbStem.id);
  return { ...dbStem, volume: stemConfig.volume || dbStem.default_volume || 0.7 }\<close>.
  Reading \<open>.volume\<close> of \<open>undefined\<close> throws a TypeError.
\<close>

definition base_volume :: "stem_config \<Rightarrow> audio_stem \<Rightarrow> real" where
  "base_volume stemConfig dbStem =
     default_to 0.7 (js_or (js_or (cfg_volume stemConfig) (default_volume dbStem)) (Some 0.7))"

definition audioStem_of :: "stem_config list \<Rightarrow> audio_stem \<Rightarrow> error + mix_stem" where
  "audioStem_of stems0 dbStem =
     (case find (\<lambda>s. js_or (stem_id s) (cfg_id s) = Some (row_id dbStem)) stems0 of
        None \<Rightarrow> Inl (Error ''Cannot read properties of undefined (reading 'volume')'')
      | Some stemConfig \<Rightarrow>
          Inr \<lparr>row_id = row_id dbStem, file_path = file_path dbStem,
               default_volume = default_volume dbStem,
               stem_volume = base_volume stemConfig dbStem\<rparr>)"

text \<open>The first stem whose file is missing, if any.\<close>

fun verify_files :: "audio_world \<Rightarrow> mix_stem list \<Rightarrow> error + unit" where
  "verify_files w [] = Inr ()"
| "verify_files w (stem # rest) =
     (if path_resolve w (file_path stem) \<notin> files w
      then Inl (Error (''Audio file not found: '' @ file_path stem))
      else verify_files w rest)"

text \<open>
  The curves: one volume curve per stem, then one pan curve per stem; every curve draws
  \<open>points + 1\<close> random numbers, in this order.
\<close>

definition volumeCurves :: "audio_world \<Rightarrow> real \<Rightarrow> real \<Rightarrow> mix_stem list \<Rightarrow> volume_point list list" where
  "volumeCurves w dur vola audioStems =
     map (\<lambda>j. generateVolumeCurve dur (stem_volume (audioStems ! j)) vola (rnd w)
                (j * Suc (curve_points dur)))
       [0..<length audioStems]"

definition panCurves :: "audio_world \<Rightarrow> real \<Rightarrow> real \<Rightarrow> mix_stem list \<Rightarrow> pan_point list list" where
  "panCurves w dur drift audioStems =
     map (\<lambda>j. generatePanCurve dur drift (rnd w)
                ((length audioStems + j) * Suc (curve_points dur)))
       [0..<length audioStems]"

text \<open>
  \<open>`[${index}:a]${volumeFilter},${panFilter}[a${index}]`\<close> for every stem, then the
  mix stage.
\<close>

definition stem_chain :: "audio_world \<Rightarrow> nat \<Rightarrow> volume_point list \<Rightarrow> pan_point list \<Rightarrow> string" where
  "stem_chain w index vcurve pcurve =
     ''['' @ show_nat index @ '':a]'' @ buildVolumeFilter (num w) vcurve @ '','' @
     buildPanFilter (num w) (avgPan pcurve) @ ''[a'' @ show_nat index @ '']''"

definition amixFilter :: "nat \<Rightarrow> string" where
  "amixFilter n =
     concat (map (\<lambda>i. ''[a'' @ show_nat i @ '']'') [0..<n]) @ ''amix=inputs='' @ show_nat n @
     '':duration=first:dropout_transition=2,dynaudnorm=f=150:g=15[out]''"

definition filterChains :: "audio_world \<Rightarrow> real \<Rightarrow> real \<Rightarrow> real \<Rightarrow> mix_stem list \<Rightarrow> string list" where
  "filterChains w dur vola drift audioStems =
     map (\<lambda>index. stem_chain w index (volumeCurves w dur vola audioStems ! index)
                     (panCurves w dur drift audioStems ! index))
       [0..<length audioStems]
     @ [amixFilter (length audioStems)]"

text \<open>The encoder command that is built, and what the promise needs besides.\<close>

record audio_command =
  inputs :: "(string \<times> string list) list"
  complexFilter :: "string list"
  cmd_duration :: real
  outputPath :: string
  fileName :: string
  stem_count :: nat

record audio_result =
  res_outputPath :: string
  relativePath :: string
  res_duration :: real
  res_stems :: nat
  generationTime :: real
  fileSize :: nat
  res_fileName :: string

text \<open>
  The body of \<open>generateAudio\<close> up to \<open>return new Promise\<close>: validation, the catalog
  lookup, the file checks, and the command. The destructured locals carry a \<open>0\<close>
  after their name (\<open>stems0\<close> is the local \<open>stems\<close>), the record fields keep
  the plain names.
\<close>

definition prepare_audio :: "audio_world \<Rightarrow> audio_config \<Rightarrow> error + audio_command" where
  "prepare_audio w config =
     (let stems0 = default_to [] (stems config);
          duration0 = default_to 3600 (duration config);
          volatility0 = default_to 0.3 (volatility config);
          spatialDrift0 = default_to 0.5 (spatialDrift config)
      in
      if length stems0 = 0 then Inl (Error ''At least one audio stem is required'')
      else if length stems0 > 10 then Inl (Error ''Maximum 10 audio stems allowed'')
      else if duration0 < 60 \<or> duration0 > 36000
        then Inl (Error ''Duration must be between 1 minute and 10 hours'')
      else
        let stemIds = map (\<lambda>s. js_or (stem_id s) (cfg_id s)) stems0 in
        case getAudioStems w stemIds of
          Inl e \<Rightarrow> Inl e
        | Inr dbStems \<Rightarrow>
            if length dbStems \<noteq> length stemIds
            then Inl (Error ''Some audio stems not found in database'')
            else
              case map_throwing (audioStem_of stems0) dbStems of
                Inl e \<Rightarrow> Inl e
              | Inr audioStems \<Rightarrow>
                  (case verify_files w audioStems of
                     Inl e \<Rightarrow> Inl e
                   | Inr _ \<Rightarrow>
                       let fileName0 = str_or (outputName config) (''audio_'' @ show_nat (now w) @ ''.mp3'')
                       in Inr \<lparr>inputs = map (\<lambda>stem. (path_resolve w (file_path stem),
                                                        [''-stream_loop'', ''-1''])) audioStems,
                                complexFilter = filterChains w duration0 volatility0 spatialDrift0 audioStems,
                                cmd_duration = duration0,
                                outputPath = path_join w (audioOutputDir w) fileName0,
                                fileName = fileName0,
                                stem_count = length audioStems\<rparr>))"

text \<open>
  The \<open>progress\<close> handler, with its variable \<open>lastProgress\<close>: an event is passed on
  when \<open>progress.percent\<close> is truthy and its floor is at least \<open>lastProgress + 5\<close>.
  The result is the list of calls \<open>progressCallback(percent, message)\<close>.
\<close>

fun on_progress :: "int \<Rightarrow> (real option \<times> string) list \<Rightarrow> (real \<times> string) list" where
  "on_progress lastProgress [] = []"
| "on_progress lastProgress ((percent, elapsed) # rest) =
     (case percent of
        None \<Rightarrow> on_progress lastProgress rest
      | Some p \<Rightarrow>
          if p = 0 then on_progress lastProgress rest
          else
            let currentProgress = \<lfloor>p\<rfloor> in
            if currentProgress \<ge> lastProgress + 5
            then (of_int currentProgress, ''Processing... ('' @ elapsed @ ''s elapsed)'')
                   # on_progress currentProgress rest
            else on_progress lastProgress rest)"

text \<open>
  A property an encoder's progress events may have: every reported percentage is below
  101, so that its floor is at most 100.
\<close>

definition within_100 :: "(real option \<times> string) list \<Rightarrow> bool" where
  "within_100 evs = list_all (\<lambda>ev. case fst ev of None \<Rightarrow> True | Some p \<Rightarrow> p < 101) evs"

text \<open>
  The promise: the calls made to \<open>progressCallback\<close> (when one is given), the value the
  promise settles with, and the files that exist afterwards.
\<close>

definition run_audio ::
  "audio_world \<Rightarrow> audio_command \<Rightarrow> (error + audio_result) \<times> (real \<times> string) list \<times> string set" where
  "run_audio w cmd =
     (let run = ffmpeg w;
          on_start = (if started run then [(0, ''Audio generation started'')] else []);
          reported = on_start @ on_progress 0 (progress run)
      in
      case outcome run of
        Ended bytes totalTime \<Rightarrow>
          (Inr \<lparr>res_outputPath = outputPath cmd,
                relativePath = ''/audio-output/'' @ fileName cmd,
                res_duration = cmd_duration cmd,
                res_stems = stem_count cmd,
                generationTime = totalTime,
                fileSize = bytes,
                res_fileName = fileName cmd\<rparr>,
           reported @ [(100, ''Audio generation completed'')],
           insert (outputPath cmd) (files w))
      | Errored msg partial \<Rightarrow>
          (let on_disk = (if partial then insert (outputPath cmd) (files w) else files w);
               cleaned = (if outputPath cmd \<in> on_disk then on_disk - {outputPath cmd} else on_disk)
           in (Inl (Error (''Audio generation failed: '' @ msg)),
               reported @ [(0, ''Error: '' @ msg)],
               cleaned)))"

definition generateAudio ::
  "audio_world \<Rightarrow> audio_config \<Rightarrow> (error + audio_result) \<times> (real \<times> string) list \<times> string set" where
  "generateAudio w config =
     (case prepare_audio w config of
        Inl e \<Rightarrow> (Inl e, [], files w)
      | Inr cmd \<Rightarrow> run_audio w cmd)"

section \<open>LoopPlanner and VideoAssemblyEngine (class VideoService, \<open>assembleVideo\<close>)\<close>





text \<open>
  What the engine does to the outside, in order: calls of \<open>progressCallback\<close> (when one
  is given), the re-encoding that materializes the reversed clip, the write of the concat
  list, the merge, and the removal of temporary files.
\<close>

datatype effect =
    is_Report: Report real string
  | is_CreateReversed: CreateReversed string string
  | is_WriteFile: WriteFile string string
  | is_Merge: Merge string string string real
  | is_Unlink: Unlink string




















section \<open>JobRunner (class JobQueueService, \<open>addJob\<close>)\<close>


text \<open>
  The object \<open>addJob\<close> returns: \<open>{ jobId, status: 'queued', message }\<close>,
  \<open>{ status: 'completed', result, message }\<close> or
  \<open>{ status: 'failed', error, message }\<close>.
\<close>

datatype 'r job_response =
    JobQueued string
  | JobCompleted 'r
  | JobFailed string


fun response_message :: "'r job_response \<Rightarrow> string" where
  "response_message (JobQueued jobId) = ''Job queued for processing''"
| "response_message (JobCompleted r) = ''Job completed synchronously''"
| "response_message (JobFailed err) = ''Job failed''"


section \<open>Example inputs\<close>

text \<open>A random source that always draws one half, and plain path functions.\<close>

definition steady :: "nat \<Rightarrow> real" where
  "steady n = 1 / 2"

definition posix_join :: "string \<Rightarrow> string \<Rightarrow> string" where
  "posix_join dir name = dir @ ''/'' @ name"

definition as_given :: "string \<Rightarrow> string" where
  "as_given p = p"

definition no_digits :: "real \<Rightarrow> string" where
  "no_digits x = ''#''"

text \<open>
  A catalog with one stem, a request that mutes it for one minute, and encoder runs: one
  that ends, one that fails half-way leaving a partial file, and one that reports a
  percentage beyond 100 (the percentage is relative to the length of an input stem, and
  the inputs loop) before it ends.
\<close>

definition rain :: audio_stem where
  "rain = \<lparr>row_id = 1, file_path = ''/stems/rain.mp3'', default_volume = Some (3 / 5)\<rparr>"

definition muted_rain :: stem_config where
  "muted_rain = \<lparr>stem_id = None, cfg_id = Some 1, cfg_volume = Some 0\<rparr>"

definition rain_mixed :: mix_stem where
  "rain_mixed = \<lparr>row_id = 1, file_path = ''/stems/rain.mp3'', default_volume = Some (3 / 5),
                  stem_volume = 3 / 5\<rparr>"

definition one_minute_mix :: audio_config where
  "one_minute_mix = \<lparr>stems = Some [muted_rain], duration = Some 60, volatility = None,
                      density = None, spatialDrift = None, outputName = Some ''mix.mp3''\<rparr>"

definition good_run :: encoder_run where
  "good_run = \<lparr>started = True,
                progress = [(Some 50, ''1.0''), (Some 52, ''1.1''), (Some 100, ''2.0'')],
                outcome = Ended 1000 2\<rparr>"

definition failing_run :: encoder_run where
  "failing_run = \<lparr>started = True, progress = [(Some 50, ''1.0'')],
                   outcome = Errored ''boom'' True\<rparr>"

definition overshooting_run :: encoder_run where
  "overshooting_run = \<lparr>started = True, progress = [(Some 250, ''1.0'')],
                        outcome = Ended 1000 2\<rparr>"






definition studio :: "encoder_run \<Rightarrow> audio_world" where
  "studio run = \<lparr>files = {''/stems/rain.mp3''}, now = 0, path_resolve = as_given,
                  path_join = posix_join, catalog = [rain], db_error = None, rnd = steady,
                  ffmpeg = run, num = no_digits, audioOutputDir = ''/out''\<rparr>"

section \<open>Properties of the curve generator\<close>

lemma curve_points_ge: "10 \<le> curve_points d"
  by (simp add: curve_points_def)

lemma curve_points_pos: "0 < curve_points d"
  using curve_points_ge [of d] by simp

lemma length_generateVolumeCurve:
  "length (generateVolumeCurve d b v r k) = Suc (curve_points d)"
  by (simp add: generateVolumeCurve_def Let_def)

lemma generateVolumeCurve_nonempty: "generateVolumeCurve d b v r k \<noteq> []"
  using length_generateVolumeCurve [of d b v r k] by auto

lemma nth_generateVolumeCurve:
  assumes "i \<le> curve_points d"
  shows "generateVolumeCurve d b v r k ! i =
           \<lparr>time = (real i / real (curve_points d)) * d,
            volume = max 0.1 (min 1.0 (b + (r (k + i) - 0.5) * v))\<rparr>"
  using assms by (simp add: generateVolumeCurve_def Let_def del: upt_Suc)

lemma time_nth_generateVolumeCurve:
  "i \<le> curve_points d \<Longrightarrow>
   time (generateVolumeCurve d b v r k ! i) = (real i / real (curve_points d)) * d"
  by (simp add: nth_generateVolumeCurve)

lemma volume_in_range:
  assumes "p \<in> set (generateVolumeCurve d b v r k)"
  shows "1 / 10 \<le> volume p \<and> volume p \<le> 1"
proof -
  from assms obtain i where i: "i < Suc (curve_points d)"
    and p: "p = generateVolumeCurve d b v r k ! i"
    by (auto simp: in_set_conv_nth length_generateVolumeCurve)
  have "volume p = max 0.1 (min 1.0 (b + (r (k + i) - 0.5) * v))"
    using i p by (simp add: nth_generateVolumeCurve)
  then show ?thesis by simp
qed

lemma times_increasing:
  assumes "0 < d"
  shows "sorted_wrt (<) (map time (generateVolumeCurve d b v r k))"
proof -
  have pos: "0 < real (curve_points d)" using curve_points_pos [of d] by simp
  have "\<And>i j. i < j \<Longrightarrow> j < Suc (curve_points d) \<Longrightarrow>
      (real i / real (curve_points d)) * d < (real j / real (curve_points d)) * d"
    using assms pos by (simp add: divide_strict_right_mono)
  then show ?thesis
    by (simp add: sorted_wrt_iff_nth_less length_generateVolumeCurve time_nth_generateVolumeCurve)
qed

lemma first_time: "time (hd (generateVolumeCurve d b v r k)) = 0"
proof -
  have "hd (generateVolumeCurve d b v r k) = generateVolumeCurve d b v r k ! 0"
    using generateVolumeCurve_nonempty by (simp add: hd_conv_nth)
  then show ?thesis by (simp add: time_nth_generateVolumeCurve)
qed

lemma last_time: "time (last (generateVolumeCurve d b v r k)) = d"
proof -
  have "last (generateVolumeCurve d b v r k) = generateVolumeCurve d b v r k ! curve_points d"
    using generateVolumeCurve_nonempty
    by (simp add: last_conv_nth length_generateVolumeCurve)
  moreover have "real (curve_points d) \<noteq> 0" using curve_points_pos [of d] by simp
  ultimately show ?thesis by (simp add: time_nth_generateVolumeCurve)
qed





text \<open>
  C6: for every duration \<open>D\<close> between 60 and 36000, every base volume and every
  volatility between 0 and 1, the sample times of the volume curve are strictly
  increasing, start at 0 and end at \<open>D\<close>, and every volume lies between 0.1 and 1.
\<close>

theorem volume_curve_bounds:
  assumes "60 \<le> D" and "D \<le> 36000" and "0 \<le> v" and "v \<le> 1"
  shows "sorted_wrt (<) (map time (generateVolumeCurve D b v r k))
       \<and> time (hd (generateVolumeCurve D b v r k)) = 0
       \<and> time (last (generateVolumeCurve D b v r k)) = D
       \<and> (\<forall>p \<in> set (generateVolumeCurve D b v r k). 1 / 10 \<le> volume p \<and> volume p \<le> 1)"
proof -
  have "0 < D" using assms(1) by simp
  then have "sorted_wrt (<) (map time (generateVolumeCurve D b v r k))"
    by (rule times_increasing)
  then show ?thesis
    using first_time last_time volume_in_range by blast
qed

theorem volume_curve_bounds_witness:
  "(60::real) \<le> 60 \<and> (60::real) \<le> 36000 \<and> (0::real) \<le> 3 / 10 \<and> (3 / 10 ::real) \<le> 1
   \<and> sorted_wrt (<) (map time (generateVolumeCurve 60 (7 / 10) (3 / 10) steady 0))
   \<and> time (last (generateVolumeCurve 60 (7 / 10) (3 / 10) steady 0)) = 60
   \<and> 1 / 10 \<le> volume (hd (generateVolumeCurve 60 (7 / 10) (3 / 10) steady 0))
   \<and> volume (hd (generateVolumeCurve 60 (7 / 10) (3 / 10) steady 0)) \<le> 1"
proof -
  have "hd (generateVolumeCurve 60 (7 / 10) (3 / 10) steady 0)
          \<in> set (generateVolumeCurve 60 (7 / 10) (3 / 10) steady 0)"
    using generateVolumeCurve_nonempty by simp
  then show ?thesis
    using volume_curve_bounds [of 60 "3 / 10" "7 / 10" steady 0] by simp
qed

section \<open>Properties of the volume filter\<close>

lemma window_interval: "window p = {time p .. time p + 1}"
  by (auto simp: window_def between_def)

lemma volume_expr_sum:
  "volume_expr curve t = (\<Sum>p\<leftarrow>curve. if time p \<le> t \<and> t \<le> time p + 1 then volume p else 0)"
  unfolding volume_expr_def
  by (rule arg_cong [where f = sum_list], rule map_cong) (simp_all add: between_def)

lemma step_exceeds_one:
  assumes "60 \<le> d"
  shows "1 < d / real (curve_points d)"
proof (cases "\<lfloor>d / 60\<rfloor> \<le> 10")
  case True
  then have "curve_points d = 10" by (simp add: curve_points_def)
  then show ?thesis using assms by simp
next
  case False
  then have n: "real (curve_points d) = of_int \<lfloor>d / 60\<rfloor>"
    by (simp add: curve_points_def)
  have "of_int \<lfloor>d / 60\<rfloor> \<le> d / 60" by (rule of_int_floor_le)
  then have "real (curve_points d) \<le> d / 60" using n by simp
  moreover have "0 < real (curve_points d)" using curve_points_pos [of d] by simp
  ultimately show ?thesis using assms by (simp add: field_simps)
qed

lemma windows_apart:
  assumes "60 \<le> d" and "i < j" and "j \<le> curve_points d"
  shows "time (generateVolumeCurve d b v r k ! i) + 1 < time (generateVolumeCurve d b v r k ! j)"
proof -
  let ?n = "real (curve_points d)"
  have pos: "0 < ?n" using curve_points_pos [of d] by simp
  have step: "1 < d / ?n" using assms(1) by (rule step_exceeds_one)
  have "real i + 1 \<le> real j" using assms(2) by simp
  then have "(real i + 1) * (d / ?n) \<le> real j * (d / ?n)"
    using step by (intro mult_right_mono) simp_all
  moreover have "(real i + 1) * (d / ?n) = real i * (d / ?n) + d / ?n"
    by (simp add: distrib_right add_divide_distrib)
  then have "real i * (d / ?n) + 1 < (real i + 1) * (d / ?n)"
    using step by simp
  ultimately have "real i * (d / ?n) + 1 < real j * (d / ?n)" by simp
  moreover have "i \<le> curve_points d" using assms by simp
  ultimately show ?thesis
    using assms(3) by (simp add: time_nth_generateVolumeCurve)
qed

lemma windows_disjoint:
  assumes "60 \<le> d" and "i < j" and "j < length (generateVolumeCurve d b v r k)"
  shows "window (generateVolumeCurve d b v r k ! i) \<inter> window (generateVolumeCurve d b v r k ! j) = {}"
proof -
  have "j \<le> curve_points d" using assms(3) by (simp add: length_generateVolumeCurve)
  then have "time (generateVolumeCurve d b v r k ! i) + 1 < time (generateVolumeCurve d b v r k ! j)"
    using assms(1,2) by (intro windows_apart)
  then show ?thesis by (auto simp: window_interval)
qed

lemma volume_expr_active:
  assumes d: "60 \<le> d" and i: "i < length (generateVolumeCurve d b v r k)"
    and t: "t \<in> window (generateVolumeCurve d b v r k ! i)"
  shows "volume_expr (generateVolumeCurve d b v r k) t = volume (generateVolumeCurve d b v r k ! i)"
proof -
  let ?c = "generateVolumeCurve d b v r k"
  let ?f = "\<lambda>p. if time p \<le> t \<and> t \<le> time p + 1 then volume p else 0"
  have other: "?f (?c ! j) = 0" if "j < length ?c" and "j \<noteq> i" for j
  proof -
    have "window (?c ! i) \<inter> window (?c ! j) = {}"
    proof (cases "i < j")
      case True
      then show ?thesis using d that(1) by (intro windows_disjoint)
    next
      case False
      then have "j < i" using that(2) by simp
      then have "window (?c ! j) \<inter> window (?c ! i) = {}" using d i by (intro windows_disjoint)
      then show ?thesis by blast
    qed
    then have "t \<notin> window (?c ! j)" using t by blast
    then show ?thesis by (auto simp: window_interval)
  qed
  have here: "?f (?c ! i) = volume (?c ! i)" using t by (simp add: window_interval)
  have "volume_expr ?c t = (\<Sum>p\<leftarrow>?c. ?f p)" by (rule volume_expr_sum)
  also have "\<dots> = (\<Sum>j = 0..<length ?c. ?f (?c ! j))"
    unfolding sum_list_sum_nth by (rule sum.cong) simp_all
  also have "\<dots> = (\<Sum>j = 0..<length ?c. if j = i then volume (?c ! i) else 0)"
    using other here by (intro sum.cong) auto
  also have "\<dots> = volume (?c ! i)" using i by simp
  finally show ?thesis .
qed

lemma volume_expr_silent:
  assumes "\<forall>p \<in> set curve. t \<notin> window p"
  shows "volume_expr curve t = 0"
  using assms by (induction curve) (auto simp: volume_expr_def window_def between_def)

lemma example_curve:
  "generateVolumeCurve 60 (7 / 10) (3 / 10) steady 0 =
     [\<lparr>time = 0, volume = 7 / 10\<rparr>, \<lparr>time = 6, volume = 7 / 10\<rparr>,
      \<lparr>time = 12, volume = 7 / 10\<rparr>, \<lparr>time = 18, volume = 7 / 10\<rparr>,
      \<lparr>time = 24, volume = 7 / 10\<rparr>, \<lparr>time = 30, volume = 7 / 10\<rparr>,
      \<lparr>time = 36, volume = 7 / 10\<rparr>, \<lparr>time = 42, volume = 7 / 10\<rparr>,
      \<lparr>time = 48, volume = 7 / 10\<rparr>, \<lparr>time = 54, volume = 7 / 10\<rparr>,
      \<lparr>time = 60, volume = 7 / 10\<rparr>]"
  by (simp add: generateVolumeCurve_def curve_points_def steady_def upt_rec)

text \<open>
  C5 states that the gain expression has one half-open window per consecutive pair of
  curve points. On the curve generated for one minute the code emits one term per point
  (11 terms for 10 pairs), each active only on the closed second that starts at the
  point: at \<open>t = 3\<close>, between the first two points, the emitted gain is 0, although
  every sample was clamped to at least 0.1, where the stated expression gives the first
  point's volume.
\<close>

theorem volume_filter_silent_gap:
  "length (volume_terms no_digits (generateVolumeCurve 60 (7 / 10) (3 / 10) steady 0))
     \<noteq> length (spec_windows (generateVolumeCurve 60 (7 / 10) (3 / 10) steady 0))
   \<and> volume_expr (generateVolumeCurve 60 (7 / 10) (3 / 10) steady 0) 3 = 0
   \<and> spec_volume_expr (generateVolumeCurve 60 (7 / 10) (3 / 10) steady 0) 3 = 7 / 10"
  unfolding example_curve
  by (simp add: volume_terms_def spec_windows_def volume_expr_def spec_volume_expr_def between_def)

text \<open>
  What the emitted expression is, for every volume curve generated for a duration between
  60 and 36000: one term per curve point, \<open>between(t, time, time + 1) * volume\<close>,
  active on the closed window \<open>[time, time + 1]\<close>; the windows are pairwise disjoint,
  inside a window the expression is the volume of the window's point, and outside all
  windows it is 0.
\<close>

lemma volume_filter_windows:
  assumes "60 \<le> D" and "D \<le> 36000" and "c = generateVolumeCurve D b v r k"
  shows "length (volume_terms fmt c) = length c
       \<and> (\<forall>i < length c.
            volume_terms fmt c ! i =
              ''between(t,'' @ fmt (time (c ! i)) @ '','' @ fmt (time (c ! i) + 1) @ '')*'' @
              fmt (volume (c ! i))
            \<and> window (c ! i) = {time (c ! i) .. time (c ! i) + 1})
       \<and> (\<forall>i j. i < j \<and> j < length c \<longrightarrow> window (c ! i) \<inter> window (c ! j) = {})
       \<and> (\<forall>t i. i < length c \<and> t \<in> window (c ! i) \<longrightarrow> volume_expr c t = volume (c ! i))
       \<and> (\<forall>t. (\<forall>p \<in> set c. t \<notin> window p) \<longrightarrow> volume_expr c t = 0)"
proof -
  have terms: "\<forall>i < length c.
      volume_terms fmt c ! i =
        ''between(t,'' @ fmt (time (c ! i)) @ '','' @ fmt (time (c ! i) + 1) @ '')*'' @
        fmt (volume (c ! i))
      \<and> window (c ! i) = {time (c ! i) .. time (c ! i) + 1}"
    by (simp add: volume_terms_def volume_term_def window_interval)
  have disjoint: "\<forall>i j. i < j \<and> j < length c \<longrightarrow> window (c ! i) \<inter> window (c ! j) = {}"
    unfolding assms(3) using windows_disjoint [OF assms(1)] by blast
  have active: "\<forall>t i. i < length c \<and> t \<in> window (c ! i) \<longrightarrow> volume_expr c t = volume (c ! i)"
    unfolding assms(3) using volume_expr_active [OF assms(1)] by blast
  have silent: "\<forall>t. (\<forall>p \<in> set c. t \<notin> window p) \<longrightarrow> volume_expr c t = 0"
    using volume_expr_silent by blast
  have "length (volume_terms fmt c) = length c" by (simp add: volume_terms_def)
  then show ?thesis using terms disjoint active silent by blast
qed

lemma volume_filter_windows_example:
  "(60::real) \<le> 60 \<and> (60::real) \<le> 36000
   \<and> length (volume_terms no_digits (generateVolumeCurve 60 (7 / 10) (3 / 10) steady 0)) = 11
   \<and> window (generateVolumeCurve 60 (7 / 10) (3 / 10) steady 0 ! 0) = {0 .. 1}
   \<and> window (generateVolumeCurve 60 (7 / 10) (3 / 10) steady 0 ! 0)
       \<inter> window (generateVolumeCurve 60 (7 / 10) (3 / 10) steady 0 ! 1) = {}
   \<and> volume_expr (generateVolumeCurve 60 (7 / 10) (3 / 10) steady 0) (1 / 2) = 7 / 10"
proof -
  have h1: "(60::real) \<le> 60" and h2: "(60::real) \<le> 36000" by simp_all
  have len: "length (generateVolumeCurve 60 (7 / 10) (3 / 10) steady 0) = 11"
    by (simp add: example_curve)
  have t0: "time (generateVolumeCurve 60 (7 / 10) (3 / 10) steady 0 ! 0) = 0"
    and v0: "volume (generateVolumeCurve 60 (7 / 10) (3 / 10) steady 0 ! 0) = 7 / 10"
    by (simp_all add: example_curve)
  note fact = volume_filter_windows
    [where fmt = no_digits and b = "7 / 10" and v = "3 / 10" and r = steady and k = 0,
     OF h1 h2 refl]
  note count = fact [THEN conjunct1]
  note shape = fact [THEN conjunct2, THEN conjunct1, rule_format]
  note apart = fact [THEN conjunct2, THEN conjunct2, THEN conjunct1, rule_format]
  note inside = fact [THEN conjunct2, THEN conjunct2, THEN conjunct2, THEN conjunct1, rule_format]
  have a: "length (volume_terms no_digits (generateVolumeCurve 60 (7 / 10) (3 / 10) steady 0)) = 11"
    using count len by simp
  have b: "window (generateVolumeCurve 60 (7 / 10) (3 / 10) steady 0 ! 0) = {0 .. 1}"
    using shape [of 0] len t0 by simp
  have c: "window (generateVolumeCurve 60 (7 / 10) (3 / 10) steady 0 ! 0)
       \<inter> window (generateVolumeCurve 60 (7 / 10) (3 / 10) steady 0 ! 1) = {}"
    using apart [of 0 1] len by simp
  have "(1 / 2 :: real) \<in> window (generateVolumeCurve 60 (7 / 10) (3 / 10) steady 0 ! 0)"
    using b by simp
  then have d: "volume_expr (generateVolumeCurve 60 (7 / 10) (3 / 10) steady 0) (1 / 2) = 7 / 10"
    using inside [of 0 "1 / 2"] len v0 by simp
  show ?thesis using h1 h2 a b c d by (intro conjI)
qed

section \<open>Properties of the pan curve and the pan filter\<close>

lemma length_generatePanCurve:
  "length (generatePanCurve d sd r k) = Suc (curve_points d)"
  by (simp add: generatePanCurve_def Let_def)

lemma pan_value_range:
  fixes x sd :: real
  assumes "0 \<le> sd" and "sd \<le> 1" and "0 \<le> x" and "x < 1"
  shows "- 1 \<le> (x - 0.5) * 2 * sd \<and> (x - 0.5) * 2 * sd \<le> 1"
proof -
  let ?y = "(x - 0.5) * 2"
  have y: "\<bar>?y\<bar> \<le> 1" using assms(3,4) by (simp add: abs_le_iff)
  have "\<bar>?y * sd\<bar> = \<bar>?y\<bar> * \<bar>sd\<bar>" by (rule abs_mult)
  also have "\<dots> \<le> 1 * 1" using y assms(1,2) by (intro mult_mono) simp_all
  finally show ?thesis by (simp add: abs_le_iff)
qed

lemma pan_in_range:
  assumes "0 \<le> sd" and "sd \<le> 1" and "\<forall>n. 0 \<le> r n \<and> r n < 1"
    and "p \<in> set (generatePanCurve d sd r k)"
  shows "- 1 \<le> pan p \<and> pan p \<le> 1"
proof -
  from assms(4) have "\<exists>i. pan p = (r (k + i) - 0.5) * 2 * sd"
    unfolding generatePanCurve_def Let_def by (auto simp del: upt_Suc)
  then obtain i where "pan p = (r (k + i) - 0.5) * 2 * sd" ..
  moreover have "0 \<le> r (k + i)" "r (k + i) < 1" using assms(3) by simp_all
  ultimately show ?thesis using pan_value_range [OF assms(1,2)] by simp
qed

lemma foldl_pan: "foldl (\<lambda>sum p. sum + pan p) a curve = a + sum_list (map pan curve)"
  by (induction curve arbitrary: a) simp_all

lemma avgPan_mean: "avgPan curve = sum_list (map pan curve) / real (length curve)"
  by (simp add: avgPan_def foldl_pan)

lemma mean_in_range:
  fixes xs :: "real list"
  assumes "xs \<noteq> []" and "\<forall>x \<in> set xs. lo \<le> x \<and> x \<le> hi"
  shows "lo \<le> sum_list xs / real (length xs) \<and> sum_list xs / real (length xs) \<le> hi"
proof -
  have n: "0 < real (length xs)" using assms(1) by simp
  have "sum_list (map (\<lambda>x. lo) xs) \<le> sum_list (map (\<lambda>x. x) xs)"
    using assms(2) by (intro sum_list_mono) simp
  then have lo: "real (length xs) * lo \<le> sum_list xs" by (simp add: sum_list_triv)
  have "sum_list (map (\<lambda>x. x) xs) \<le> sum_list (map (\<lambda>x. hi) xs)"
    using assms(2) by (intro sum_list_mono) simp
  then have hi: "sum_list xs \<le> real (length xs) * hi" by (simp add: sum_list_triv)
  show ?thesis using lo hi n by (simp add: field_simps)
qed

lemma avgPan_in_range:
  assumes "0 \<le> sd" and "sd \<le> 1" and "\<forall>n. 0 \<le> r n \<and> r n < 1"
  shows "- 1 \<le> avgPan (generatePanCurve d sd r k) \<and> avgPan (generatePanCurve d sd r k) \<le> 1"
proof -
  let ?c = "generatePanCurve d sd r k"
  have "map pan ?c \<noteq> []" using length_generatePanCurve [of d sd r k] by auto
  moreover have "\<forall>x \<in> set (map pan ?c). - 1 \<le> x \<and> x \<le> 1"
    using pan_in_range [OF assms] by auto
  ultimately have "- 1 \<le> sum_list (map pan ?c) / real (length (map pan ?c))
      \<and> sum_list (map pan ?c) / real (length (map pan ?c)) \<le> 1"
    by (rule mean_in_range)
  then show ?thesis by (simp add: avgPan_mean)
qed

lemma gains_in_range:
  assumes "- 1 \<le> x" and "x \<le> 1"
  shows "0 \<le> leftGain x \<and> leftGain x \<le> 2 \<and> 0 \<le> rightGain x \<and> rightGain x \<le> 2"
  using assms by (simp add: leftGain_def rightGain_def max_def min_def)

lemma nth_panCurves:
  "index < length audioStems \<Longrightarrow>
   panCurves w dur drift audioStems ! index =
     generatePanCurve dur drift (rnd w) ((length audioStems + index) * Suc (curve_points dur))"
  by (simp add: panCurves_def del: upt_Suc)

lemma nth_volumeCurves:
  "index < length audioStems \<Longrightarrow>
   volumeCurves w dur vola audioStems ! index =
     generateVolumeCurve dur (stem_volume (audioStems ! index)) vola (rnd w)
       (index * Suc (curve_points dur))"
  by (simp add: volumeCurves_def del: upt_Suc)

lemma nth_filterChains:
  "index < length audioStems \<Longrightarrow>
   filterChains w dur vola drift audioStems ! index =
     stem_chain w index (volumeCurves w dur vola audioStems ! index)
       (panCurves w dur drift audioStems ! index)"
  by (simp add: filterChains_def nth_append del: upt_Suc)

text \<open>
  C7: for every spatial drift between 0 and 1 (and a random source that draws from
  \<open>[0, 1)\<close>, as \<open>Math.random\<close> does), every pan value of a stem's pan curve lies
  between -1 and 1; the stem's filter chain carries the static split
  \<open>pan=stereo|c0=L*c0|c1=R*c1\<close> with \<open>L = 1 - max(0, pan)\<close> and
  \<open>R = 1 + min(0, pan)\<close> for \<open>pan\<close> the mean of that curve, and both gains lie
  between 0 and 2.
\<close>

theorem pan_filter_static_mean:
  assumes "0 \<le> drift" and "drift \<le> 1" and "\<forall>n. 0 \<le> rnd w n \<and> rnd w n < 1"
    and "index < length audioStems"
    and "c = panCurves w dur drift audioStems ! index"
  shows "(\<forall>p \<in> set c. - 1 \<le> pan p \<and> pan p \<le> 1)
       \<and> avgPan c = sum_list (map pan c) / real (length c)
       \<and> filterChains w dur vola drift audioStems ! index =
           ''['' @ show_nat index @ '':a]'' @
           buildVolumeFilter (num w) (volumeCurves w dur vola audioStems ! index) @ '','' @
           ''pan=stereo|c0='' @ num w (1 - max 0 (avgPan c)) @
           ''*c0|c1='' @ num w (1 + min 0 (avgPan c)) @ ''*c1'' @
           ''[a'' @ show_nat index @ '']''
       \<and> 0 \<le> 1 - max 0 (avgPan c) \<and> 1 - max 0 (avgPan c) \<le> 2
       \<and> 0 \<le> 1 + min 0 (avgPan c) \<and> 1 + min 0 (avgPan c) \<le> 2"
proof -
  have c: "c = generatePanCurve dur drift (rnd w)
                 ((length audioStems + index) * Suc (curve_points dur))"
    using assms(4,5) by (simp add: nth_panCurves)
  have pans: "\<forall>p \<in> set c. - 1 \<le> pan p \<and> pan p \<le> 1"
    unfolding c using pan_in_range [OF assms(1,2,3)] by blast
  have avg: "- 1 \<le> avgPan c \<and> avgPan c \<le> 1"
    unfolding c using assms(1,2,3) by (rule avgPan_in_range)
  have gains: "0 \<le> 1 - max 0 (avgPan c) \<and> 1 - max 0 (avgPan c) \<le> 2
       \<and> 0 \<le> 1 + min 0 (avgPan c) \<and> 1 + min 0 (avgPan c) \<le> 2"
    using gains_in_range [of "avgPan c"] avg by (simp add: leftGain_def rightGain_def)
  have chain: "filterChains w dur vola drift audioStems ! index =
           ''['' @ show_nat index @ '':a]'' @
           buildVolumeFilter (num w) (volumeCurves w dur vola audioStems ! index) @ '','' @
           ''pan=stereo|c0='' @ num w (1 - max 0 (avgPan c)) @
           ''*c0|c1='' @ num w (1 + min 0 (avgPan c)) @ ''*c1'' @
           ''[a'' @ show_nat index @ '']''"
    using assms(4,5)
    by (simp add: nth_filterChains stem_chain_def buildPanFilter_def leftGain_def rightGain_def)
  show ?thesis using pans avgPan_mean [of c] chain gains by blast
qed

theorem pan_filter_static_mean_witness:
  "(0::real) \<le> 1 / 2 \<and> (1 / 2 :: real) \<le> 1
   \<and> (\<forall>n. 0 \<le> rnd (studio good_run) n \<and> rnd (studio good_run) n < 1)
   \<and> (0::nat) < length [rain_mixed]
   \<and> avgPan (panCurves (studio good_run) 60 (1 / 2) [rain_mixed] ! 0)
       = sum_list (map pan (panCurves (studio good_run) 60 (1 / 2) [rain_mixed] ! 0))
         / real (length (panCurves (studio good_run) 60 (1 / 2) [rain_mixed] ! 0))
   \<and> 0 \<le> 1 - max 0 (avgPan (panCurves (studio good_run) 60 (1 / 2) [rain_mixed] ! 0))
   \<and> 1 + min 0 (avgPan (panCurves (studio good_run) 60 (1 / 2) [rain_mixed] ! 0)) \<le> 2"
proof -
  have r: "\<forall>n. 0 \<le> rnd (studio good_run) n \<and> rnd (studio good_run) n < 1"
    by (simp add: studio_def steady_def)
  have h1: "(0::real) \<le> 1 / 2" and h2: "(1 / 2 :: real) \<le> 1"
    and h3: "(0::nat) < length [rain_mixed]"
    by simp_all
  note fact = pan_filter_static_mean [where dur = 60 and vola = "3 / 10", OF h1 h2 r h3 refl]
  note mean = fact [THEN conjunct2, THEN conjunct1]
  note gains = fact [THEN conjunct2, THEN conjunct2, THEN conjunct2]
  note left = gains [THEN conjunct1]
  note right = gains [THEN conjunct2, THEN conjunct2, THEN conjunct2]
  show ?thesis using h1 h2 r h3 mean left right by (intro conjI)
qed

section \<open>Properties of the audio mix engine\<close>

lemma map_throwing_Inr:
  "map_throwing f xs = Inr ys \<Longrightarrow>
   length ys = length xs \<and> (\<forall>j < length xs. f (xs ! j) = Inr (ys ! j))"
proof (induction xs arbitrary: ys)
  case Nil
  then show ?case by simp
next
  case (Cons x xs)
  from Cons.prems obtain y ys' where y: "f x = Inr y" and ys': "map_throwing f xs = Inr ys'"
    and ys: "ys = y # ys'"
    by (auto split: sum.splits)
  from Cons.IH [OF ys'] have "length ys' = length xs"
    and "\<forall>j < length xs. f (xs ! j) = Inr (ys' ! j)" by simp_all
  then show ?case using y ys by (auto simp: nth_Cons split: nat.splits)
qed

lemma base_volume_fallback:
  assumes "cfg_volume stemConfig = None \<or> cfg_volume stemConfig = Some 0"
  shows "base_volume stemConfig dbStem =
           (case default_volume dbStem of
              None \<Rightarrow> 7 / 10
            | Some dv \<Rightarrow> if dv = 0 then 7 / 10 else dv)"
  using assms
  by (auto simp: base_volume_def js_or_def truthy_def default_to_def split: option.splits)

lemma base_volume_override:
  assumes "cfg_volume stemConfig = Some x" and "x \<noteq> 0"
  shows "base_volume stemConfig dbStem = x"
  using assms by (simp add: base_volume_def js_or_def truthy_def default_to_def)

text \<open>
  C10: when the request's volume for a stem is 0 or absent, the stem's base volume is the
  catalog's default volume, or 0.7 when that is absent or 0 as well; this base volume is
  the one the stem's volume curve is generated from.
\<close>

theorem zero_override_falls_back:
  assumes "map_throwing (audioStem_of stems0) dbStems = Inr audioStems"
    and "j < length dbStems"
    and "find (\<lambda>s. js_or (stem_id s) (cfg_id s) = Some (row_id (dbStems ! j))) stems0
           = Some stemConfig"
    and "cfg_volume stemConfig = None \<or> cfg_volume stemConfig = Some 0"
  shows "stem_volume (audioStems ! j) =
           (case default_volume (dbStems ! j) of
              None \<Rightarrow> 7 / 10
            | Some dv \<Rightarrow> if dv = 0 then 7 / 10 else dv)
       \<and> volumeCurves w dur vola audioStems ! j =
           generateVolumeCurve dur
             (case default_volume (dbStems ! j) of
                None \<Rightarrow> 7 / 10
              | Some dv \<Rightarrow> if dv = 0 then 7 / 10 else dv)
             vola (rnd w) (j * Suc (curve_points dur))"
proof -
  from map_throwing_Inr [OF assms(1)] assms(2)
  have len: "length audioStems = length dbStems"
    and at: "audioStem_of stems0 (dbStems ! j) = Inr (audioStems ! j)" by simp_all
  from at assms(3) have "audioStems ! j =
      \<lparr>row_id = row_id (dbStems ! j), file_path = file_path (dbStems ! j),
       default_volume = default_volume (dbStems ! j),
       stem_volume = base_volume stemConfig (dbStems ! j)\<rparr>"
    by (simp add: audioStem_of_def)
  then have "stem_volume (audioStems ! j) = base_volume stemConfig (dbStems ! j)"
    by simp
  then have vol: "stem_volume (audioStems ! j) =
           (case default_volume (dbStems ! j) of
              None \<Rightarrow> 7 / 10
            | Some dv \<Rightarrow> if dv = 0 then 7 / 10 else dv)"
    using base_volume_fallback [OF assms(4)] by simp
  have "j < length audioStems" using len assms(2) by simp
  then have "volumeCurves w dur vola audioStems ! j =
      generateVolumeCurve dur (stem_volume (audioStems ! j)) vola (rnd w)
        (j * Suc (curve_points dur))"
    by (simp add: volumeCurves_def del: upt_Suc)
  then show ?thesis using vol by simp
qed

lemma rain_prepared: "map_throwing (audioStem_of [muted_rain]) [rain] = Inr [rain_mixed]"
  by (simp add: audioStem_of_def muted_rain_def rain_def rain_mixed_def base_volume_def
      js_or_def truthy_def default_to_def)

theorem zero_override_falls_back_witness:
  "map_throwing (audioStem_of [muted_rain]) [rain] = Inr [rain_mixed]
   \<and> (0::nat) < length [rain]
   \<and> find (\<lambda>s. js_or (stem_id s) (cfg_id s) = Some (row_id ([rain] ! 0))) [muted_rain]
       = Some muted_rain
   \<and> (cfg_volume muted_rain = None \<or> cfg_volume muted_rain = Some 0)
   \<and> stem_volume ([rain_mixed] ! 0) = 3 / 5
   \<and> volumeCurves (studio good_run) 60 (3 / 10) [rain_mixed] ! 0
       = generateVolumeCurve 60 (3 / 5) (3 / 10) (rnd (studio good_run)) (0 * Suc (curve_points 60))"
proof -
  have h2: "(0::nat) < length [rain]" by simp
  have h3: "find (\<lambda>s. js_or (stem_id s) (cfg_id s) = Some (row_id ([rain] ! 0))) [muted_rain]
       = Some muted_rain"
    by (simp add: muted_rain_def rain_def js_or_def truthy_def)
  have h4: "cfg_volume muted_rain = None \<or> cfg_volume muted_rain = Some 0"
    by (simp add: muted_rain_def)
  have dv: "default_volume ([rain] ! 0) = Some (3 / 5)" by (simp add: rain_def)
  note fact = zero_override_falls_back
    [where w = "studio good_run" and dur = 60 and vola = "3 / 10", OF rain_prepared h2 h3 h4]
  have a: "stem_volume ([rain_mixed] ! 0) = 3 / 5"
    using fact [THEN conjunct1] dv by simp
  have b: "volumeCurves (studio good_run) 60 (3 / 10) [rain_mixed] ! 0
       = generateVolumeCurve 60 (3 / 5) (3 / 10) (rnd (studio good_run)) (0 * Suc (curve_points 60))"
    using fact [THEN conjunct2] dv by simp
  show ?thesis using rain_prepared h2 h3 h4 a b by (intro conjI)
qed

lemma prepare_audio_Inr:
  assumes "prepare_audio w config = Inr cmd"
  shows "\<exists>dbStems audioStems.
           getAudioStems w (map (\<lambda>s. js_or (stem_id s) (cfg_id s)) (default_to [] (stems config)))
             = Inr dbStems
         \<and> map_throwing (audioStem_of (default_to [] (stems config))) dbStems = Inr audioStems
         \<and> verify_files w audioStems = Inr ()
         \<and> complexFilter cmd =
             filterChains w (default_to 3600 (duration config))
               (default_to 0.3 (volatility config)) (default_to 0.5 (spatialDrift config)) audioStems
         \<and> 1 \<le> length (default_to [] (stems config)) \<and> length (default_to [] (stems config)) \<le> 10
         \<and> 60 \<le> cmd_duration cmd \<and> cmd_duration cmd \<le> 36000"
  using assms
  by (auto simp: prepare_audio_def Let_def Suc_le_eq split: if_splits sum.splits)

lemma on_progress_steps:
  "sorted (map fst (on_progress l evs))
   \<and> (\<forall>x \<in> set (map fst (on_progress l evs)). of_int l + 5 \<le> x)"
proof (induction evs arbitrary: l)
  case Nil
  then show ?case by simp
next
  case (Cons ev evs)
  obtain percent elapsed where ev: "ev = (percent, elapsed)" by (cases ev)
  show ?case
  proof (cases percent)
    case None
    then show ?thesis using Cons.IH [of l] ev by simp
  next
    case (Some p)
    show ?thesis
    proof (cases "p \<noteq> 0 \<and> l + 5 \<le> \<lfloor>p\<rfloor>")
      case True
      have "\<forall>x \<in> set (map fst (on_progress \<lfloor>p\<rfloor> evs)). of_int \<lfloor>p\<rfloor> \<le> x"
        using Cons.IH [of "\<lfloor>p\<rfloor>"] by fastforce
      moreover have "real_of_int l + 5 \<le> of_int \<lfloor>p\<rfloor>"
        using True by linarith
      ultimately show ?thesis
        using Cons.IH [of "\<lfloor>p\<rfloor>"] ev Some True by (fastforce simp: Let_def)
    next
      case False
      then show ?thesis using Cons.IH [of l] ev Some by (auto simp: Let_def)
    qed
  qed
qed


lemma on_progress_bounded:
  "within_100 evs \<Longrightarrow> \<forall>x \<in> set (map fst (on_progress l evs)). x \<le> 100"
proof (induction evs arbitrary: l)
  case Nil
  then show ?case by simp
next
  case (Cons ev evs)
  obtain percent elapsed where ev: "ev = (percent, elapsed)" by (cases ev)
  from Cons.prems have rest: "within_100 evs" by (simp add: within_100_def)
  show ?case
  proof (cases percent)
    case None
    then show ?thesis using Cons.IH [OF rest, of l] ev by simp
  next
    case (Some p)
    from Cons.prems ev Some have "p < 101" by (simp add: within_100_def)
    then have "\<lfloor>p\<rfloor> \<le> 100" by linarith
    then have "real_of_int \<lfloor>p\<rfloor> \<le> 100" by linarith
    then show ?thesis
      using Cons.IH [OF rest] ev Some by (auto simp: Let_def)
  qed
qed

lemma on_progress_not_completed:
  "(x, ''Audio generation completed'') \<notin> set (on_progress l evs)"
  by (induction l evs rule: on_progress.induct) (auto simp: Let_def split: option.splits)

lemma run_audio_success:
  assumes "outcome (ffmpeg w) = Ended bytes totalTime"
  shows "fst (snd (run_audio w cmd)) =
           (if started (ffmpeg w) then [(0, ''Audio generation started'')] else [])
           @ on_progress 0 (progress (ffmpeg w)) @ [(100, ''Audio generation completed'')]"
  using assms by (simp add: run_audio_def Let_def)

lemma run_audio_failure:
  assumes "outcome (ffmpeg w) = Errored msg partial"
  shows "run_audio w cmd =
           (Inl (Error (''Audio generation failed: '' @ msg)),
            (if started (ffmpeg w) then [(0, ''Audio generation started'')] else [])
            @ on_progress 0 (progress (ffmpeg w)) @ [(0, ''Error: '' @ msg)],
            files w - {outputPath cmd})"
  using assms by (auto simp: run_audio_def Let_def)

lemma studio_prepared:
  "prepare_audio (studio run) one_minute_mix =
     Inr \<lparr>inputs = [(''/stems/rain.mp3'', [''-stream_loop'', ''-1''])],
          complexFilter = filterChains (studio run) 60 0.3 0.5 [rain_mixed],
          cmd_duration = 60,
          outputPath = ''/out/mix.mp3'',
          fileName = ''mix.mp3'',
          stem_count = 1\<rparr>"
  by (simp add: prepare_audio_def Let_def studio_def one_minute_mix_def default_to_def
      getAudioStems_def muted_rain_def rain_def rain_mixed_def js_or_def truthy_def
      audioStem_of_def base_volume_def as_given_def posix_join_def str_or_def)

text \<open>
  C3, as stated: the percentages delivered to the progress sink of any audio generation
  job never decrease. It fails for a job whose encoder fails after reporting 50 percent
  (the sink gets 0, 50 and then 0 with the error message), and for a job that completes
  after the encoder reported 250 percent (the sink gets 0, 250 and then 100).
\<close>

theorem progress_monotone_counterexample:
  "\<not> sorted (map fst (fst (snd (generateAudio (studio failing_run) one_minute_mix))))
   \<and> \<not> sorted (map fst (fst (snd (generateAudio (studio overshooting_run) one_minute_mix))))"
  by (simp add: generateAudio_def studio_prepared run_audio_def Let_def)
     (simp add: studio_def failing_run_def overshooting_run_def)

text \<open>
  C3, amended: in every audio generation job the progress events before the last one have
  percentages that never decrease. When the encoder run ends, the last event is 100
  percent with the message \<open>Audio generation completed\<close>, no other event is equal
  to it, and the percentages of all events never decrease provided the encoder reported
  no percentage of 101 or more. When the encoder run fails, the last event is 0 percent
  with the message \<open>Error: \<close> followed by the encoder's message.
\<close>

theorem progress_events:
  assumes "prepare_audio w config = Inr cmd"
    and "events = fst (snd (generateAudio w config))"
  shows "events \<noteq> []
       \<and> sorted (map fst (butlast events))
       \<and> (\<forall>bytes totalTime. outcome (ffmpeg w) = Ended bytes totalTime \<longrightarrow>
            last events = (100, ''Audio generation completed'')
            \<and> length (filter (\<lambda>ev. ev = (100, ''Audio generation completed'')) events) = 1
            \<and> (within_100 (progress (ffmpeg w)) \<longrightarrow> sorted (map fst events)))
       \<and> (\<forall>msg partial. outcome (ffmpeg w) = Errored msg partial \<longrightarrow>
            last events = (0, ''Error: '' @ msg))"
proof -
  let ?start = "if started (ffmpeg w) then [(0::real, ''Audio generation started'')] else []"
  let ?mid = "on_progress 0 (progress (ffmpeg w))"
  have steps: "sorted (map fst ?mid)" and low: "\<forall>x \<in> set (map fst ?mid). 0 \<le> x"
    using on_progress_steps [of 0 "progress (ffmpeg w)"] by fastforce+
  have before: "sorted (map fst (?start @ ?mid))"
    using steps low by (auto simp: sorted_append)
  have shape: "\<exists>final. events = (?start @ ?mid) @ [final]"
  proof (cases "outcome (ffmpeg w)")
    case (Ended bytes totalTime)
    then show ?thesis using assms by (simp add: generateAudio_def run_audio_success)
  next
    case (Errored msg partial)
    then show ?thesis using assms by (simp add: generateAudio_def run_audio_failure)
  qed
  then obtain final where ev: "events = (?start @ ?mid) @ [final]" by blast
  have nonempty: "events \<noteq> []" using ev by simp
  have prefix: "sorted (map fst (butlast events))"
    unfolding ev butlast_snoc by (rule before)
  have ended: "last events = (100, ''Audio generation completed'')
      \<and> length (filter (\<lambda>ev. ev = (100, ''Audio generation completed'')) events) = 1
      \<and> (within_100 (progress (ffmpeg w)) \<longrightarrow> sorted (map fst events))"
    if out: "outcome (ffmpeg w) = Ended bytes totalTime" for bytes totalTime
  proof -
    have ev': "events = ?start @ ?mid @ [(100, ''Audio generation completed'')]"
      using assms out by (simp add: generateAudio_def run_audio_success)
    have "filter (\<lambda>ev. ev = (100, ''Audio generation completed'')) ?mid = []"
      using on_progress_not_completed [of _ 0 "progress (ffmpeg w)"]
      by (auto simp: filter_empty_conv)
    then have one: "length (filter (\<lambda>ev. ev = (100, ''Audio generation completed'')) events) = 1"
      unfolding ev' by simp
    have sorted_all: "sorted (map fst events)" if "within_100 (progress (ffmpeg w))"
    proof -
      have "\<forall>x \<in> set (map fst ?mid). x \<le> 100"
        using on_progress_bounded [OF that, of 0] by fastforce
      then show ?thesis using steps low unfolding ev' by (auto simp: sorted_append)
    qed
    show ?thesis using ev' one sorted_all by simp
  qed
  have failed: "last events = (0, ''Error: '' @ msg)"
    if out: "outcome (ffmpeg w) = Errored msg partial" for msg partial
    using assms out by (simp add: generateAudio_def run_audio_failure)
  show ?thesis using nonempty prefix ended failed by blast
qed

theorem progress_events_witness:
  "prepare_audio (studio good_run) one_minute_mix =
     Inr \<lparr>inputs = [(''/stems/rain.mp3'', [''-stream_loop'', ''-1''])],
          complexFilter = filterChains (studio good_run) 60 0.3 0.5 [rain_mixed],
          cmd_duration = 60, outputPath = ''/out/mix.mp3'', fileName = ''mix.mp3'',
          stem_count = 1\<rparr>
   \<and> outcome (ffmpeg (studio good_run)) = Ended 1000 2
   \<and> within_100 (progress (ffmpeg (studio good_run)))
   \<and> last (fst (snd (generateAudio (studio good_run) one_minute_mix)))
       = (100, ''Audio generation completed'')
   \<and> length (filter (\<lambda>ev. ev = (100, ''Audio generation completed''))
               (fst (snd (generateAudio (studio good_run) one_minute_mix)))) = 1
   \<and> sorted (map fst (fst (snd (generateAudio (studio good_run) one_minute_mix))))
   \<and> outcome (ffmpeg (studio failing_run)) = Errored ''boom'' True
   \<and> sorted (map fst (butlast (fst (snd (generateAudio (studio failing_run) one_minute_mix)))))
   \<and> last (fst (snd (generateAudio (studio failing_run) one_minute_mix)))
       = (0, ''Error: boom'')"
proof -
  have h2: "outcome (ffmpeg (studio good_run)) = Ended 1000 2"
    by (simp add: studio_def good_run_def)
  have h3: "within_100 (progress (ffmpeg (studio good_run)))"
    by (simp add: studio_def good_run_def within_100_def)
  have h4: "outcome (ffmpeg (studio failing_run)) = Errored ''boom'' True"
    by (simp add: studio_def failing_run_def)
  note good = progress_events [OF studio_prepared [of good_run] refl]
  note ended = good [THEN conjunct2, THEN conjunct2, THEN conjunct1, rule_format, OF h2]
  note final = ended [THEN conjunct1]
  note once = ended [THEN conjunct2, THEN conjunct1]
  note monotone = ended [THEN conjunct2, THEN conjunct2, rule_format, OF h3]
  note bad = progress_events [OF studio_prepared [of failing_run] refl]
  note before = bad [THEN conjunct2, THEN conjunct1]
  have error: "last (fst (snd (generateAudio (studio failing_run) one_minute_mix)))
       = (0, ''Error: boom'')"
    using bad [THEN conjunct2, THEN conjunct2, THEN conjunct2, rule_format, OF h4] by simp
  show ?thesis
    using studio_prepared [of good_run] h2 h3 final once monotone h4 before error
    by (intro conjI)
qed

text \<open>
  C8: whenever the encoder fails during \<open>generateAudio\<close>, the promise is rejected
  with the error \<open>Audio generation failed: \<close> followed by the encoder's message, and
  the output file does not exist afterwards (no other file is touched).
\<close>

theorem encoder_failure_cleans_up:
  assumes "prepare_audio w config = Inr cmd"
    and "outcome (ffmpeg w) = Errored msg partial"
  shows "fst (generateAudio w config) = Inl (Error (''Audio generation failed: '' @ msg))
       \<and> outputPath cmd \<notin> snd (snd (generateAudio w config))
       \<and> snd (snd (generateAudio w config)) = files w - {outputPath cmd}"
  using assms by (simp add: generateAudio_def run_audio_failure)

theorem encoder_failure_cleans_up_witness:
  "prepare_audio (studio failing_run) one_minute_mix =
     Inr \<lparr>inputs = [(''/stems/rain.mp3'', [''-stream_loop'', ''-1''])],
          complexFilter = filterChains (studio failing_run) 60 0.3 0.5 [rain_mixed],
          cmd_duration = 60, outputPath = ''/out/mix.mp3'', fileName = ''mix.mp3'',
          stem_count = 1\<rparr>
   \<and> outcome (ffmpeg (studio failing_run)) = Errored ''boom'' True
   \<and> fst (generateAudio (studio failing_run) one_minute_mix)
       = Inl (Error ''Audio generation failed: boom'')
   \<and> ''/out/mix.mp3'' \<notin> snd (snd (generateAudio (studio failing_run) one_minute_mix))"
proof -
  have h2: "outcome (ffmpeg (studio failing_run)) = Errored ''boom'' True"
    by (simp add: studio_def failing_run_def)
  note fact = encoder_failure_cleans_up [OF studio_prepared h2]
  have a: "fst (generateAudio (studio failing_run) one_minute_mix)
       = Inl (Error ''Audio generation failed: boom'')"
    using fact [THEN conjunct1] by simp
  have b: "''/out/mix.mp3'' \<notin> snd (snd (generateAudio (studio failing_run) one_minute_mix))"
    using fact [THEN conjunct2, THEN conjunct1] by simp
  show ?thesis using studio_prepared h2 a b by (intro conjI)
qed

section \<open>Properties of the job runner\<close>




section \<open>Properties of the loop planner and the video assembly\<close>












lemma mapped_reports: "\<forall>e \<in> set (map (\<lambda>(p, m). Report (f p) m) calls). is_Report e"
  by auto







lemma ten_loops: "nat \<lceil>(95::real) / 10\<rceil> = 10"
  by simp








end
